theory Spec2Isabelle
  imports Complex_Main "HOL-Library.Multiset" "HOL-Library.Log_Nat"
begin

section \<open>The numbers of JavaScript\<close>

text \<open>
  A TypeScript \<^verbatim>\<open>number\<close> is an IEEE-754 binary64 value: a real number that the format
  represents, one of the two infinities, or \<^verbatim>\<open>NaN\<close>. The two zeros are one value here; no
  operation of the program tells them apart.
\<close>

datatype number = Finite real | PlusInfinity | MinusInfinity | NaN

text \<open>
  Every arithmetic operation returns the exact result rounded to the nearest representable
  value, a tie going to the value with an even significand. \<open>pow2 k\<close> is \<^verbatim>\<open>2^k\<close> and
  \<open>ilog2 a\<close> is the integer \<open>k\<close> with \<^verbatim>\<open>2^k <= a < 2^(k+1)\<close>, for \<open>a > 0\<close>. The representable
  values near \<open>x\<close> are the multiples of \<open>quantum x\<close>: the significand has 53 bits, and
  below \<^verbatim>\<open>2^-1022\<close> the values are subnormal, all multiples of \<^verbatim>\<open>2^-1074\<close>. A result that
  rounds to \<^verbatim>\<open>2^1024\<close> or beyond is an infinity.
\<close>

definition pow2 :: "int \<Rightarrow> real" where
  "pow2 k = (if 0 \<le> k then 2 ^ nat k else 1 / 2 ^ nat (- k))"

definition ilog2 :: "real \<Rightarrow> int" where
  "ilog2 a =
    (if 1 \<le> a then int (floorlog 2 (nat \<lfloor>a\<rfloor>)) - 1
     else - int (floorlog 2 (nat (\<lceil>1 / a\<rceil> - 1))))"

definition round_even :: "real \<Rightarrow> int" where
  "round_even x =
    (let n = \<lfloor>x\<rfloor>; d = x - of_int n
     in if d < 1 / 2 then n else if 1 / 2 < d then n + 1 else if even n then n else n + 1)"

definition quantum :: "real \<Rightarrow> real" where
  "quantum x = pow2 (max (ilog2 \<bar>x\<bar>) (- 1022) - 52)"

definition round64 :: "real \<Rightarrow> number" where
  "round64 x =
    (if x = 0 then Finite 0
     else
       let q = quantum x; y = of_int (round_even (x / q)) * q
       in if 2 ^ 1024 \<le> y then PlusInfinity
          else if y \<le> - (2 ^ 1024) then MinusInfinity
          else Finite y)"

text \<open>A decimal literal of the source, such as \<^verbatim>\<open>0.08\<close>, is the binary64 value nearest to it.\<close>

definition lit :: "real \<Rightarrow> number" where
  "lit x = round64 x"

text \<open>The operators \<^verbatim>\<open>+\<close>, unary and binary \<^verbatim>\<open>-\<close>, and \<^verbatim>\<open>*\<close>.\<close>

fun fadd :: "number \<Rightarrow> number \<Rightarrow> number" where
  "fadd (Finite x) (Finite y) = round64 (x + y)"
| "fadd NaN b = NaN"
| "fadd a NaN = NaN"
| "fadd PlusInfinity MinusInfinity = NaN"
| "fadd MinusInfinity PlusInfinity = NaN"
| "fadd PlusInfinity b = PlusInfinity"
| "fadd MinusInfinity b = MinusInfinity"
| "fadd a PlusInfinity = PlusInfinity"
| "fadd a MinusInfinity = MinusInfinity"

fun fneg :: "number \<Rightarrow> number" where
  "fneg (Finite x) = Finite (- x)"
| "fneg PlusInfinity = MinusInfinity"
| "fneg MinusInfinity = PlusInfinity"
| "fneg NaN = NaN"

definition fsub :: "number \<Rightarrow> number \<Rightarrow> number" where
  "fsub a b = fadd a (fneg b)"

fun fsgn :: "number \<Rightarrow> real" where
  "fsgn (Finite x) = sgn x"
| "fsgn PlusInfinity = 1"
| "fsgn MinusInfinity = - 1"
| "fsgn NaN = 0"

fun fmul :: "number \<Rightarrow> number \<Rightarrow> number" where
  "fmul (Finite x) (Finite y) = round64 (x * y)"
| "fmul NaN b = NaN"
| "fmul a NaN = NaN"
| "fmul a b =
    (if fsgn a * fsgn b = 0 then NaN
     else if 0 < fsgn a * fsgn b then PlusInfinity
     else MinusInfinity)"

text \<open>The comparisons \<^verbatim>\<open><\<close> and \<^verbatim>\<open><=\<close>, false when an operand is \<^verbatim>\<open>NaN\<close>, and \<^verbatim>\<open>===\<close>, which
  \<^verbatim>\<open>NaN\<close> fails also against itself.\<close>

fun lt :: "number \<Rightarrow> number \<Rightarrow> bool" where
  "lt (Finite x) (Finite y) = (x < y)"
| "lt NaN b = False"
| "lt a NaN = False"
| "lt PlusInfinity b = False"
| "lt a PlusInfinity = True"
| "lt MinusInfinity b = (b \<noteq> MinusInfinity)"
| "lt a MinusInfinity = False"

fun le :: "number \<Rightarrow> number \<Rightarrow> bool" where
  "le NaN b = False"
| "le a NaN = False"
| "le a b = (\<not> lt b a)"

definition strict_eq :: "number \<Rightarrow> number \<Rightarrow> bool" where
  "strict_eq a b = (a \<noteq> NaN \<and> a = b)"

text \<open>\<^verbatim>\<open>Math.max\<close> of two numbers is \<^verbatim>\<open>NaN\<close> when one of them is. \<^verbatim>\<open>Math.round\<close> rounds to the
  nearest integer, a half towards \<open>+\<infinity>\<close>; the integer nearest to a binary64 value is a
  binary64 value.\<close>

definition Math_max64 :: "number \<Rightarrow> number \<Rightarrow> number" where
  "Math_max64 a b = (if a = NaN \<or> b = NaN then NaN else if lt a b then b else a)"

fun Math_round64 :: "number \<Rightarrow> number" where
  "Math_round64 (Finite x) = Finite (of_int \<lfloor>x + 1 / 2\<rfloor>)"
| "Math_round64 a = a"

section \<open>Errors, dates and time zones\<close>

text \<open>What the program throws: an \<^verbatim>\<open>Error\<close> of its own, a \<^verbatim>\<open>TypeError\<close> or \<^verbatim>\<open>RangeError\<close> of the
  language, or the error of a database response.\<close>

datatype error = Error string | TypeError string | PostgrestError string | RangeError string

text \<open>
  The time value of a \<^verbatim>\<open>Date\<close> is an instant in milliseconds since the epoch, in UTC; a time
  value beyond 8.64e15 in absolute value is clipped to \<^verbatim>\<open>NaN\<close>, the invalid date, here \<open>None\<close>.
  A time zone gives the offset of local time from UTC at an instant (\<open>utc_offset\<close>), and the
  offset with which a local time is read back (\<open>local_offset\<close>); at a local time that a
  transition skips or repeats, the language takes the offset in force before the transition.

  \<^verbatim>\<open>d.setDate(d.getDate() + n)\<close> moves the local time of \<open>d\<close> by \<open>n\<close> days, keeping the local
  time of day, and reads the result back as an instant. \<^verbatim>\<open>toISOString().split('T')[0]\<close> is
  the calendar date of an instant in UTC; a calendar date (also the \<^verbatim>\<open>DATE\<close> column of the
  database, sent as \<^verbatim>\<open>YYYY-MM-DD\<close>) is the number of its day since the epoch.
\<close>

type_synonym timestamp = int
type_synonym date = int

definition msPerDay :: int where
  "msPerDay = 86400000"

record zone =
  utc_offset :: "timestamp \<Rightarrow> int"
  local_offset :: "int \<Rightarrow> int"

definition LocalTime :: "zone \<Rightarrow> timestamp \<Rightarrow> int" where
  "LocalTime tz t = t + utc_offset tz t"

definition UTC :: "zone \<Rightarrow> int \<Rightarrow> timestamp" where
  "UTC tz t = t - local_offset tz t"

definition TimeClip :: "int \<Rightarrow> timestamp option" where
  "TimeClip t = (if \<bar>t\<bar> \<le> 8640000000000000 then Some t else None)"

definition setDate_plus :: "zone \<Rightarrow> timestamp \<Rightarrow> int \<Rightarrow> timestamp option" where
  "setDate_plus tz t n = TimeClip (UTC tz (LocalTime tz t + n * msPerDay))"

definition toISODate :: "timestamp \<Rightarrow> date" where
  "toISODate t = t div msPerDay"

text \<open>
  Two time zones: UTC itself, and Europe/Berlin in 2024, one hour ahead of UTC and two hours
  ahead between 2024-03-31T01:00Z and 2024-10-27T01:00Z.
\<close>

definition utc_zone :: zone where
  "utc_zone = \<lparr>utc_offset = (\<lambda>t. 0), local_offset = (\<lambda>t. 0)\<rparr>"

definition berlin_2024 :: zone where
  "berlin_2024 =
    \<lparr>utc_offset =
       (\<lambda>t. if 1711846800000 \<le> t \<and> t < 1729990800000 then 7200000 else 3600000),
     local_offset =
       (\<lambda>t. if 1711854000000 \<le> t \<and> t < 1729998000000 then 7200000 else 3600000)\<rparr>"
section \<open>The SM-2 review calculator (\<^verbatim>\<open>flashcard-app/src/lib/sm2.ts\<close>)\<close>

subsection \<open>The calculator on binary64 numbers\<close>

text \<open>
  The function as it runs: every field is a \<^typ>\<open>number\<close>, every operator is the rounded one,
  and the comparisons are those of the language, so that a quality \<^verbatim>\<open>NaN\<close> passes the check.
  The clock read \<^verbatim>\<open>new Date()\<close> is the parameter \<open>now\<close> and the time zone of the host is the
  parameter \<open>tz\<close>. The new interval is 1, 6 or the result of \<^verbatim>\<open>Math.round\<close>; \<^verbatim>\<open>setDate\<close>
  truncates its argument to an integer, and with an argument that is not finite the date
  becomes invalid.
\<close>

record SM2Input64 =
  quality :: number
  repetitions :: number
  easeFactor :: number
  interval :: number

record SM2Result64 =
  interval :: number
  repetitions :: number
  easeFactor :: number
  nextReviewDate :: "timestamp option"

definition calculateSM2_binary64 :: "zone \<Rightarrow> timestamp \<Rightarrow> SM2Input64 \<Rightarrow> error + SM2Result64" where
  "calculateSM2_binary64 tz now input =
    (let quality = SM2Input64.quality input;
         repetitions = SM2Input64.repetitions input;
         easeFactor = SM2Input64.easeFactor input;
         interval = SM2Input64.interval input
     in
       if lt quality (Finite 0) \<or> lt (Finite 5) quality
       then Inl (Error ''Quality must be between 0 and 5'')
       else
         let newEaseFactor =
               fadd easeFactor
                 (fsub (lit 0.1)
                    (fmul (fsub (Finite 5) quality)
                       (fadd (lit 0.08) (fmul (fsub (Finite 5) quality) (lit 0.02)))));
             newEaseFactor = Math_max64 (lit 1.3) newEaseFactor;
             (newRepetitions, newInterval) =
               (if lt quality (Finite 3) then (Finite 0, Finite 1)
                else
                  let newRepetitions = fadd repetitions (Finite 1)
                  in (newRepetitions,
                      if strict_eq newRepetitions (Finite 1) then Finite 1
                      else if strict_eq newRepetitions (Finite 2) then Finite 6
                      else Math_round64 (fmul interval newEaseFactor)));
             nextReviewDate =
               (case newInterval of
                  Finite n \<Rightarrow> setDate_plus tz now (if 0 \<le> n then \<lfloor>n\<rfloor> else \<lceil>n\<rceil>)
                | _ \<Rightarrow> None)
         in Inr \<lparr>SM2Result64.interval = newInterval, repetitions = newRepetitions,
                 easeFactor = newEaseFactor, nextReviewDate = nextReviewDate\<rparr>)"

text \<open>The three stored fields of a result, in the order ease factor, interval, repetitions;
  \<open>None\<close> when the call threw.\<close>

definition state64 :: "error + SM2Result64 \<Rightarrow> (number \<times> number \<times> number) option" where
  "state64 r =
    (case r of
       Inl e \<Rightarrow> None
     | Inr res \<Rightarrow>
         Some (SM2Result64.easeFactor res, SM2Result64.interval res, SM2Result64.repetitions res))"

subsection \<open>The calculator in exact arithmetic\<close>

text \<open>
  The same function with every \<^verbatim>\<open>number\<close> a \<^typ>\<open>real\<close> and every operation exact, a \<^verbatim>\<open>Date\<close>
  being a point in time counted in days. It is the idealisation of
  \<^const>\<open>calculateSM2_binary64\<close> that leaves rounding, \<^verbatim>\<open>NaN\<close> and the infinities out. It serves
  where they do not bear on the property: the check of the quality, the worked example, and
  the lower bound of the interval; each of these is also shown of
  \<^const>\<open>calculateSM2_binary64\<close> below. The equalities of the returned ease factor and interval
  are stated of \<^const>\<open>calculateSM2_binary64\<close> only.
\<close>

type_synonym Date = real

record SM2Input =
  quality :: real
  repetitions :: real
  easeFactor :: real
  interval :: real

record SM2Result =
  interval :: real
  repetitions :: real
  easeFactor :: real
  nextReviewDate :: Date

text \<open>\<^verbatim>\<open>Math.round\<close> rounds to the nearest integer, a half towards \<open>+\<infinity>\<close>.\<close>

definition Math_round :: "real \<Rightarrow> real" where
  "Math_round x = of_int \<lfloor>x + 1 / 2\<rfloor>"

definition calculateSM2 :: "Date \<Rightarrow> SM2Input \<Rightarrow> error + SM2Result" where
  "calculateSM2 now input =
    (let quality = SM2Input.quality input;
         repetitions = SM2Input.repetitions input;
         easeFactor = SM2Input.easeFactor input;
         interval = SM2Input.interval input
     in
       if quality < 0 \<or> quality > 5 then Inl (Error ''Quality must be between 0 and 5'')
       else
         let newEaseFactor = easeFactor + (0.1 - (5 - quality) * (0.08 + (5 - quality) * 0.02));
             newEaseFactor = max 1.3 newEaseFactor;
             (newRepetitions, newInterval) =
               (if quality < 3 then (0, 1)
                else
                  let newRepetitions = repetitions + 1
                  in (newRepetitions,
                      if newRepetitions = 1 then 1
                      else if newRepetitions = 2 then 6
                      else Math_round (interval * newEaseFactor)));
             nextReviewDate = now + newInterval
         in Inr \<lparr>SM2Result.interval = newInterval, repetitions = newRepetitions,
                 easeFactor = newEaseFactor, nextReviewDate = nextReviewDate\<rparr>)"

text \<open>The error the specification calls \<open>InvalidQuality\<close> is the one thrown by the check.\<close>

definition InvalidQuality :: error where
  "InvalidQuality = Error ''Quality must be between 0 and 5''"

text \<open>The three stored fields of a result, in the order ease factor, interval, repetitions;
  \<open>None\<close> when the call threw.\<close>

definition state_of :: "error + SM2Result \<Rightarrow> (real \<times> real \<times> real) option" where
  "state_of r =
    (case r of
       Inl e \<Rightarrow> None
     | Inr res \<Rightarrow>
         Some (SM2Result.easeFactor res, SM2Result.interval res, SM2Result.repetitions res))"

subsection \<open>The specification's reference definitions\<close>

text \<open>Written from the words of the specification (section 4.1), to be compared with
  \<^const>\<open>calculateSM2\<close> and \<^const>\<open>calculateSM2_binary64\<close>: the ease factor
  \<^verbatim>\<open>max(1.3, ease + (0.1 - (5 - quality) * (0.08 + (5 - quality) * 0.02)))\<close>, in exact and in
  binary64 arithmetic, and rounding half away from zero.\<close>

definition spec_ease :: "real \<Rightarrow> real \<Rightarrow> real" where
  "spec_ease q ease = max 1.3 (ease + (0.1 - (5 - q) * (0.08 + (5 - q) * 0.02)))"

definition round_half_away :: "real \<Rightarrow> real" where
  "round_half_away x = sgn x * of_int \<lfloor>\<bar>x\<bar> + 1 / 2\<rfloor>"

definition spec_ease64 :: "number \<Rightarrow> number \<Rightarrow> number" where
  "spec_ease64 q ease =
    Math_max64 (lit 1.3)
      (fadd ease
         (fsub (lit 0.1)
            (fmul (fsub (Finite 5) q) (fadd (lit 0.08) (fmul (fsub (Finite 5) q) (lit 0.02))))))"

fun round_half_away64 :: "number \<Rightarrow> number" where
  "round_half_away64 (Finite x) = Finite (round_half_away x)"
| "round_half_away64 a = a"
section \<open>The due selector (\<^verbatim>\<open>fetchDueCards\<close> in \<^verbatim>\<open>lib/study-session.ts\<close> of the implementation guide)\<close>

text \<open>
  A timestamp is an instant in milliseconds; \<^verbatim>\<open>new Date().toISOString()\<close> is the parameter
  \<open>now\<close>. The tables are lists of rows, in the order in which the database holds them.
\<close>

type_synonym uuid = string

text \<open>The columns of \<^verbatim>\<open>public.cards\<close> that the query selects.\<close>

record card =
  id' :: uuid
  word :: string
  definition' :: string
  phonetic :: "string option"
  example_sentences :: "string list"
  image_url :: "string option"
  audio_url :: "string option"
  card_type :: string
  deck_id :: uuid

text \<open>The columns of \<^verbatim>\<open>public.card_reviews\<close> that the query reads.\<close>

record review_row =
  card_id :: uuid
  user_id :: uuid
  ease_factor :: real
  interval :: real
  repetitions :: real
  next_review_date :: timestamp

record supabase =
  session :: "uuid option"  \<comment> \<open>\<^verbatim>\<open>session.user.id\<close>, or no session\<close>
  card_reviews :: "review_row list"
  cards :: "card list"
  fault :: "string option"  \<comment> \<open>the message of the response's \<^verbatim>\<open>error\<close>, when the request fails\<close>

text \<open>One element of \<^verbatim>\<open>data\<close>: the selected columns and the embedded card, \<^verbatim>\<open>null\<close> when
  no card is embedded.\<close>

record item =
  card_id :: uuid
  ease_factor :: real
  interval :: real
  repetitions :: real
  cards :: "card option"

record review =
  ease_factor :: real
  interval :: real
  repetitions :: real

record DueCard =
  id' :: uuid
  word :: string
  definition' :: string
  phonetic :: "string option"
  example_sentences :: "string list"
  image_url :: "string option"
  audio_url :: "string option"
  card_type :: string
  review :: review

text \<open>
  \<^verbatim>\<open>.order('next_review_date', { ascending: true })\<close> is carried out by the database. SQL
  fixes the result of \<^verbatim>\<open>ORDER BY\<close> only up to the order of rows with equal keys, so the
  ordering is a parameter \<open>ord\<close> of the model, of which only this is known: it returns the
  same rows, in non-decreasing order of the key.
\<close>

definition sorting :: "((review_row \<Rightarrow> timestamp) \<Rightarrow> review_row list \<Rightarrow> review_row list) \<Rightarrow> bool" where
  "sorting ord = (\<forall>key xs. mset (ord key xs) = mset xs \<and> sorted (map key (ord key xs)))"

text \<open>Two orderings that differ on ties: a stable sort of the table as it is, and a stable
  sort of the table read backwards.\<close>

definition sort_key_rev :: "(review_row \<Rightarrow> timestamp) \<Rightarrow> review_row list \<Rightarrow> review_row list" where
  "sort_key_rev key xs = sort_key key (rev xs)"

text \<open>The rows of \<^verbatim>\<open>card_reviews\<close> that the query keeps, in the order of the response:
  \<^verbatim>\<open>.eq('user_id', ...)\<close>, \<^verbatim>\<open>.lte('next_review_date', ...)\<close>, \<^verbatim>\<open>.order(...)\<close>.\<close>

definition due_rows ::
  "((review_row \<Rightarrow> timestamp) \<Rightarrow> review_row list \<Rightarrow> review_row list) \<Rightarrow>
    supabase \<Rightarrow> uuid \<Rightarrow> timestamp \<Rightarrow> review_row list" where
  "due_rows ord db uid now =
    ord next_review_date
      (filter (\<lambda>r. user_id r = uid \<and> next_review_date r \<le> now) (card_reviews db))"

text \<open>
  The embedded resource \<^verbatim>\<open>cards (...)\<close> of a row is the card its \<^verbatim>\<open>card_id\<close> references.
  \<^verbatim>\<open>if (deckId)\<close> adds \<^verbatim>\<open>.eq('cards.deck_id', deckId)\<close> for a non-empty string; a filter on
  an embedded resource restricts what is embedded, not the rows of the top level, so a row
  whose card is in another deck stays in the response with \<^verbatim>\<open>cards: null\<close>.
\<close>

definition embed :: "supabase \<Rightarrow> uuid option \<Rightarrow> review_row \<Rightarrow> item" where
  "embed db deckId r =
    \<lparr>item.card_id = review_row.card_id r,
     ease_factor = review_row.ease_factor r,
     interval = review_row.interval r,
     repetitions = review_row.repetitions r,
     cards =
       find (\<lambda>c. card.id' c = review_row.card_id r \<and>
                 (case deckId of
                    None \<Rightarrow> True
                  | Some d \<Rightarrow> if d = [] then True else deck_id c = d))
         (supabase.cards db)\<rparr>"

text \<open>The callback of \<^verbatim>\<open>data.map\<close>; reading \<^verbatim>\<open>item.cards.id\<close> of a \<^verbatim>\<open>null\<close> throws.\<close>

definition null_read :: error where
  "null_read = TypeError ''Cannot read properties of null (reading 'id')''"

definition toDueCard :: "item \<Rightarrow> error + DueCard" where
  "toDueCard x =
    (case cards x of
       None \<Rightarrow> Inl null_read
     | Some c \<Rightarrow>
         Inr \<lparr>DueCard.id' = card.id' c,
              word = card.word c,
              definition' = card.definition' c,
              phonetic = card.phonetic c,
              example_sentences = card.example_sentences c,
              image_url = card.image_url c,
              audio_url = card.audio_url c,
              card_type = card.card_type c,
              review = \<lparr>review.ease_factor = item.ease_factor x,
                        interval = item.interval x,
                        repetitions = item.repetitions x\<rparr>\<rparr>)"

fun map_items :: "item list \<Rightarrow> error + DueCard list" where
  "map_items [] = Inr []"
| "map_items (x # xs) =
    (case toDueCard x of
       Inl e \<Rightarrow> Inl e
     | Inr c \<Rightarrow> (case map_items xs of Inl e \<Rightarrow> Inl e | Inr cs \<Rightarrow> Inr (c # cs)))"

definition fetchDueCards ::
  "((review_row \<Rightarrow> timestamp) \<Rightarrow> review_row list \<Rightarrow> review_row list) \<Rightarrow>
    supabase \<Rightarrow> timestamp \<Rightarrow> uuid option \<Rightarrow> error + DueCard list" where
  "fetchDueCards ord db now deckId =
    (case session db of
       None \<Rightarrow> Inl (Error ''Not authenticated'')
     | Some uid \<Rightarrow>
         (case fault db of
            Some e \<Rightarrow> Inl (PostgrestError e)
          | None \<Rightarrow> map_items (map (embed db deckId) (due_rows ord db uid now))))"

text \<open>The ids of the returned cards, in order; \<open>None\<close> when the call threw.\<close>

definition card_ids :: "error + DueCard list \<Rightarrow> uuid list option" where
  "card_ids r = (case r of Inl e \<Rightarrow> None | Inr cs \<Rightarrow> Some (map DueCard.id' cs))"

text \<open>The returned cards as a multiset: what a result is when the order is left out.\<close>

definition unordered :: "error + DueCard list \<Rightarrow> error + DueCard multiset" where
  "unordered r = (case r of Inl e \<Rightarrow> Inl e | Inr cs \<Rightarrow> Inr (mset cs))"
section \<open>The streak tracker (\<^verbatim>\<open>updateUserStreak\<close> in \<^verbatim>\<open>lib/study-session.ts\<close>)\<close>

text \<open>
  A row of \<^verbatim>\<open>public.profiles\<close>, with the columns of the schema other than the key \<^verbatim>\<open>id\<close>, by
  which the table is indexed. The table has a current streak, \<^verbatim>\<open>streak_count\<close>, and no column
  for a longest streak.
\<close>

record profile =
  email :: string
  name :: "string option"
  avatar_url :: "string option"
  created_at :: timestamp
  settings :: string
  streak_count :: int
  last_study_date :: "date option"
  total_cards_studied :: "int option"
  vocabulary_size_estimate :: string

text \<open>
  The function reads the clock twice: \<open>now\<close> is the \<^verbatim>\<open>new Date()\<close> of \<^verbatim>\<open>today\<close> and \<open>now'\<close> that of
  \<^verbatim>\<open>yesterday\<close>. \<^verbatim>\<open>today\<close> is the date of \<open>now\<close> in UTC. \<^verbatim>\<open>yesterday.setDate(yesterday.getDate() - 1)\<close>
  goes back one day in the local time of the host, whose time zone is the parameter \<open>tz\<close>, and
  \<^verbatim>\<open>yesterdayStr\<close> is the date of the result in UTC; \<^verbatim>\<open>toISOString\<close> throws a \<^verbatim>\<open>RangeError\<close> on
  an invalid date. A learner without a row is left alone.

  The query selects \<^verbatim>\<open>last_study_date, streak_count\<close> only, so \<^verbatim>\<open>profile.total_cards_studied\<close>
  is \<^verbatim>\<open>undefined\<close>, the sum \<^verbatim>\<open>undefined + 1\<close> is \<^verbatim>\<open>NaN\<close>, and JSON sends it as \<^verbatim>\<open>null\<close>: the column
  is written \<open>None\<close>. The update writes these three columns of the learner's row, and nothing
  else.
\<close>

definition updateUserStreak ::
  "zone \<Rightarrow> timestamp \<Rightarrow> timestamp \<Rightarrow> uuid \<Rightarrow> (uuid \<rightharpoonup> profile) \<Rightarrow> error + (uuid \<rightharpoonup> profile)" where
  "updateUserStreak tz now now' userId profiles =
    (case profiles userId of
       None \<Rightarrow> Inr profiles
     | Some profile \<Rightarrow>
         (let today = toISODate now;
              lastStudy = last_study_date profile;
              newStreak = streak_count profile
          in
            if lastStudy \<noteq> Some today then
              (case setDate_plus tz now' (- 1) of
                 None \<Rightarrow> Inl (RangeError ''Invalid time value'')
               | Some yesterday \<Rightarrow>
                   (let yesterdayStr = toISODate yesterday;
                        newStreak =
                          (if lastStudy = Some yesterdayStr then newStreak + 1
                           else if lastStudy \<noteq> Some today then 1
                           else newStreak)
                    in Inr (profiles(userId \<mapsto>
                         profile\<lparr>last_study_date := Some today,
                                 streak_count := newStreak,
                                 total_cards_studied := None\<rparr>))))
            else Inr profiles))"

text \<open>The row of a learner after a call that returned, if there is one; and its last study
  date and streak.\<close>

definition row_after :: "error + (uuid \<rightharpoonup> profile) \<Rightarrow> uuid \<Rightarrow> profile option" where
  "row_after r u = (case r of Inl e \<Rightarrow> None | Inr profiles \<Rightarrow> profiles u)"

definition streak_after :: "error + (uuid \<rightharpoonup> profile) \<Rightarrow> uuid \<Rightarrow> (date option \<times> int) option" where
  "streak_after r u =
    (case row_after r u of None \<Rightarrow> None | Some p \<Rightarrow> Some (last_study_date p, streak_count p))"
section \<open>Example data\<close>

text \<open>A learner's card and review row, and a database made of review rows and their cards.\<close>

definition example_card :: "uuid \<Rightarrow> card" where
  "example_card i =
    \<lparr>card.id' = i, word = ''word'', definition' = ''meaning'', phonetic = None,
     example_sentences = [], image_url = None, audio_url = None, card_type = ''basic'',
     deck_id = ''deck''\<rparr>"

definition example_review :: "uuid \<Rightarrow> timestamp \<Rightarrow> review_row" where
  "example_review i t =
    \<lparr>review_row.card_id = i, user_id = ''learner'', ease_factor = 2.5, interval = 0,
     repetitions = 0, next_review_date = t\<rparr>"

definition example_db :: "review_row list \<Rightarrow> supabase" where
  "example_db rs =
    \<lparr>session = Some ''learner'', card_reviews = rs,
     cards = map (\<lambda>r. example_card (review_row.card_id r)) rs, fault = None\<rparr>"

text \<open>Three states due at \<open>T + 1\<close>, \<open>T - 1\<close> and \<open>T - 3\<close> for \<open>T = 10\<close>, and two states due at
  the same instant.\<close>

definition three_states :: supabase where
  "three_states =
    example_db [example_review ''c'' 11, example_review ''b'' 9, example_review ''a'' 7]"

definition tied_states :: supabase where
  "tied_states = example_db [example_review ''a'' 5, example_review ''b'' 5]"

text \<open>A learner's profile row with a last study date and a streak.\<close>

definition example_profile :: "date option \<Rightarrow> int \<Rightarrow> profile" where
  "example_profile d n =
    \<lparr>email = ''learner@example.org'', name = None, avatar_url = None, created_at = 0,
     settings = ''{}'', streak_count = n, last_study_date = d, total_cards_studied = Some 7,
     vocabulary_size_estimate = ''A1''\<rparr>"
section \<open>Auxiliary facts\<close>

subsection \<open>Powers of two\<close>

lemma pow2_powi: "pow2 k = 2 powi k"
  by (simp add: pow2_def power_int_def field_simps)

lemma pow2_pos [simp]: "0 < pow2 k"
  by (simp add: pow2_powi)

lemma pow2_add: "pow2 (a + b) = pow2 a * pow2 b"
  by (simp add: pow2_powi power_int_add)

lemma pow2_diff: "pow2 (a - b) = pow2 a / pow2 b"
  by (simp add: pow2_powi power_int_diff)

lemma pow2_mono: "a \<le> b \<Longrightarrow> pow2 a \<le> pow2 b"
  by (simp add: pow2_powi power_int_increasing)

lemma pow2_strict_mono: "a < b \<Longrightarrow> pow2 a < pow2 b"
  by (simp add: pow2_powi power_int_strict_increasing)

lemma pow2_le_iff: "pow2 a \<le> pow2 b \<longleftrightarrow> a \<le> b"
  using pow2_mono [of a b] pow2_strict_mono [of b a] by (cases "a \<le> b") auto

lemma pow2_less_iff: "pow2 a < pow2 b \<longleftrightarrow> a < b"
  using pow2_le_iff [of b a] by auto

lemma pow2_nat: "0 \<le> k \<Longrightarrow> pow2 k = of_int (2 ^ nat k)"
  by (simp add: pow2_def)

lemma pow2_int_pred: "0 < k \<Longrightarrow> pow2 (int k - 1) = 2 ^ (k - 1)"
  by (simp add: pow2_def nat_diff_distrib')

lemma pow2_int: "pow2 (int k) = 2 ^ k"
  by (simp add: pow2_def)

lemma pow2_neg_int: "pow2 (- int k) = 1 / 2 ^ k"
  by (cases "k = 0") (simp_all add: pow2_def)

lemma pow2_neg_int_succ: "0 < k \<Longrightarrow> pow2 (- int k + 1) = 1 / 2 ^ (k - 1)"
  using pow2_neg_int [of "k - 1"] by (simp add: of_nat_diff algebra_simps)

lemma floorlog2_real_bounds:
  assumes "0 < n"
  shows "0 < floorlog 2 n" and "(2::real) ^ (floorlog 2 n - 1) \<le> real n"
    and "real n + 1 \<le> 2 ^ floorlog 2 n"
proof -
  have b: "2 ^ (floorlog 2 n - 1) \<le> n \<and> n < 2 ^ floorlog 2 n"
    using floorlog_bounds [of n 2] assms by simp
  show "0 < floorlog 2 n"
  proof (rule ccontr)
    assume "\<not> 0 < floorlog 2 n"
    then have "floorlog 2 n = 0" by simp
    then show False using assms by (simp add: floorlog_eq_zero_iff)
  qed
  have "real (2 ^ (floorlog 2 n - 1)) \<le> real n"
    using b by (simp only: of_nat_le_iff)
  then show "(2::real) ^ (floorlog 2 n - 1) \<le> real n" by simp
  have "n + 1 \<le> 2 ^ floorlog 2 n" using b by simp
  then have "real (n + 1) \<le> real (2 ^ floorlog 2 n)" by (simp only: of_nat_le_iff)
  then show "real n + 1 \<le> 2 ^ floorlog 2 n" by simp
qed

lemma ilog2_bounds:
  assumes "0 < a"
  shows "pow2 (ilog2 a) \<le> a \<and> a < pow2 (ilog2 a + 1)"
proof (cases "1 \<le> a")
  case True
  define n where "n = nat \<lfloor>a\<rfloor>"
  define k where "k = floorlog 2 n"
  have n: "0 < n" using True by (simp add: n_def)
  note fb = floorlog2_real_bounds [OF n, folded k_def]
  have il: "ilog2 a = int k - 1" using True by (simp add: ilog2_def n_def k_def)
  have "real n = of_int \<lfloor>a\<rfloor>" using True by (simp add: n_def)
  then have na: "real n \<le> a" "a < real n + 1" by linarith+
  have 1: "pow2 (ilog2 a) \<le> a"
    unfolding il pow2_int_pred [OF fb(1)] using fb(2) na(1) by linarith
  have "pow2 (ilog2 a + 1) = 2 ^ k"
    unfolding il using pow2_int [of k] by simp
  then have 2: "a < pow2 (ilog2 a + 1)"
    using fb(3) na(2) by linarith
  show ?thesis using 1 2 ..
next
  case False
  define c where "c = \<lceil>1 / a\<rceil>"
  define n where "n = nat (c - 1)"
  define k where "k = floorlog 2 n"
  have y: "1 < 1 / a" using False assms by simp
  have c: "2 \<le> c" unfolding c_def using y by linarith
  have n: "0 < n" using c by (simp add: n_def)
  have nc: "real n = of_int c - 1" using c by (simp add: n_def)
  note fb = floorlog2_real_bounds [OF n, folded k_def]
  have il: "ilog2 a = - int k" using False by (simp add: ilog2_def n_def k_def c_def)
  have cy: "real_of_int c - 1 < 1 / a" "1 / a \<le> real_of_int c"
    unfolding c_def by linarith+
  have u: "1 / a \<le> 2 ^ k" using fb(3) nc cy(2) by linarith
  have l: "2 ^ (k - 1) < 1 / a" using fb(2) nc cy(1) by linarith
  have "1 / 2 ^ k \<le> a"
    using u assms by (simp add: field_simps)
  then have 1: "pow2 (ilog2 a) \<le> a"
    unfolding il pow2_neg_int .
  have "a < 1 / 2 ^ (k - 1)"
    using l assms by (simp add: field_simps)
  then have 2: "a < pow2 (ilog2 a + 1)"
    unfolding il pow2_neg_int_succ [OF fb(1)] .
  show ?thesis using 1 2 ..
qed

subsection \<open>Rounding to binary64\<close>

lemma round_even_of_int [simp]: "round_even (of_int n) = n"
  by (simp add: round_even_def)

lemma round_even_le: "x \<le> of_int N \<Longrightarrow> round_even x \<le> N"
proof -
  assume a: "x \<le> of_int N"
  then have f: "\<lfloor>x\<rfloor> \<le> N" by (simp add: floor_le_iff)
  show ?thesis
  proof (cases "\<lfloor>x\<rfloor> = N")
    case True
    then have "x = of_int N" using a by linarith
    then show ?thesis by simp
  next
    case False
    then have "\<lfloor>x\<rfloor> + 1 \<le> N" using f by simp
    then show ?thesis by (auto simp: round_even_def Let_def)
  qed
qed

lemma round_even_ge: "of_int N \<le> x \<Longrightarrow> N \<le> round_even x"
proof -
  assume "of_int N \<le> x"
  then have "N \<le> \<lfloor>x\<rfloor>" by (simp add: le_floor_iff)
  then show ?thesis by (auto simp: round_even_def Let_def)
qed

lemma round_even_abs_le: "\<bar>x\<bar> \<le> of_int N \<Longrightarrow> \<bar>round_even x\<bar> \<le> N"
proof -
  assume "\<bar>x\<bar> \<le> of_int N"
  then have 1: "x \<le> of_int N" and 2: "of_int (- N) \<le> x" by simp_all
  have "round_even x \<le> N" using 1 by (rule round_even_le)
  moreover have "- N \<le> round_even x" using 2 by (rule round_even_ge)
  ultimately show ?thesis by linarith
qed

lemma round_even_small: "\<bar>x\<bar> \<le> 1 / 2 \<Longrightarrow> round_even x = 0"
proof -
  assume a: "\<bar>x\<bar> \<le> 1 / 2"
  consider "0 \<le> x" "x < 1 / 2" | "x = 1 / 2" | "x < 0" "- 1 / 2 < x" | "x = - 1 / 2"
    using a by fastforce
  then show ?thesis
  proof cases
    case 1
    then have "\<lfloor>x\<rfloor> = 0" by linarith
    then show ?thesis using 1 by (simp add: round_even_def)
  next
    case 2
    show ?thesis unfolding 2 by (simp add: round_even_def Let_def)
  next
    case 3
    then have "\<lfloor>x\<rfloor> = - 1" by linarith
    then show ?thesis using 3 by (simp add: round_even_def)
  next
    case 4
    show ?thesis unfolding 4 by (simp add: round_even_def Let_def)
  qed
qed

text \<open>The shape of a rounded number.\<close>

lemma round64_nonzero:
  assumes "x \<noteq> 0"
  shows "round64 x =
    (let y = of_int (round_even (x / quantum x)) * quantum x
     in if 2 ^ 1024 \<le> y then PlusInfinity
        else if y \<le> - (2 ^ 1024) then MinusInfinity
        else Finite y)"
  using assms by (simp add: round64_def Let_def)


lemma pow2_1023: "pow2 1023 < 2 ^ 1024"
  by (simp add: pow2_def)

lemma round64_bounded:
  assumes "\<bar>x\<bar> \<le> pow2 k" and "k \<le> 1023"
  shows "\<exists>y. round64 x = Finite y \<and> \<bar>y\<bar> \<le> pow2 k"
proof (cases "x = 0")
  case True
  then show ?thesis by (simp add: round64_def less_imp_le)
next
  case False
  define E where "E = max (ilog2 \<bar>x\<bar>) (- 1022)"
  define q where "q = pow2 (E - 52)"
  define m where "m = round_even (x / q)"
  have q: "quantum x = q" by (simp add: quantum_def q_def E_def)
  have qpos: "0 < q" by (simp add: q_def)
  have "pow2 (ilog2 \<bar>x\<bar>) \<le> \<bar>x\<bar>" using ilog2_bounds [of "\<bar>x\<bar>"] False by simp
  then have "pow2 (ilog2 \<bar>x\<bar>) \<le> pow2 k" using assms(1) by linarith
  then have ek: "ilog2 \<bar>x\<bar> \<le> k" by (simp only: pow2_le_iff)
  have "\<bar>x / q\<bar> = \<bar>x\<bar> / q" using qpos by simp
  also have "\<dots> \<le> pow2 k / q" using assms(1) qpos by (simp add: divide_right_mono)
  also have "\<dots> = pow2 (k - (E - 52))" by (simp add: q_def pow2_diff)
  finally have xq: "\<bar>x / q\<bar> \<le> pow2 (k - (E - 52))" .
  have my: "\<bar>of_int m * q\<bar> \<le> pow2 k"
  proof (cases "E - 52 \<le> k")
    case True
    define N :: int where "N = 2 ^ nat (k - (E - 52))"
    have N: "of_int N = pow2 (k - (E - 52))" using True by (simp add: N_def pow2_def)
    have "\<bar>m\<bar> \<le> N" unfolding m_def using xq N by (intro round_even_abs_le) simp
    then have "\<bar>real_of_int m\<bar> \<le> of_int N" by linarith
    then have "\<bar>real_of_int m\<bar> * q \<le> pow2 (k - (E - 52)) * q"
      unfolding N using qpos by (simp add: mult_right_mono)
    also have "\<dots> = pow2 k" unfolding q_def pow2_add [symmetric] by simp
    finally show ?thesis using qpos by (simp add: abs_mult)
  next
    case c: False
    then have "k - (E - 52) \<le> - 1" by simp
    then have "pow2 (k - (E - 52)) \<le> pow2 (- 1)" by (rule pow2_mono)
    moreover have "pow2 (- 1) = 1 / 2" by (simp add: pow2_def)
    ultimately have "\<bar>x / q\<bar> \<le> 1 / 2" using xq by linarith
    then have "m = 0" unfolding m_def by (rule round_even_small)
    then show ?thesis by (simp add: less_imp_le)
  qed
  then have "\<bar>of_int m * q\<bar> \<le> pow2 1023" using pow2_mono [OF assms(2)] by linarith
  then have "\<bar>of_int m * q\<bar> < 2 ^ 1024" using pow2_1023 by linarith
  then have "round64 x = Finite (of_int m * q)"
    unfolding round64_nonzero [OF False] q m_def [symmetric] Let_def by (simp add: abs_less_iff not_le)
  then show ?thesis using my by simp
qed


lemma round64_lower:
  assumes "pow2 k \<le> x" and "- 1022 \<le> k"
  shows "round64 x = PlusInfinity \<or> (\<exists>y. round64 x = Finite y \<and> pow2 k \<le> y)"
proof -
  have xpos: "0 < x" using assms(1) pow2_pos [of k] by linarith
  then have x0: "x \<noteq> 0" by simp
  define e where "e = ilog2 \<bar>x\<bar>"
  have "x < pow2 (e + 1)" using ilog2_bounds [of "\<bar>x\<bar>"] xpos by (simp add: e_def)
  then have "pow2 k < pow2 (e + 1)" using assms(1) by linarith
  then have ke: "k \<le> e" by (simp add: pow2_less_iff)
  then have E: "max e (- 1022) = e" using assms(2) by simp
  define q where "q = pow2 (e - 52)"
  have q: "quantum x = q" by (simp add: quantum_def q_def e_def [symmetric] E)
  have qpos: "0 < q" by (simp add: q_def)
  have "pow2 e \<le> x" using ilog2_bounds [of "\<bar>x\<bar>"] xpos by (simp add: e_def)
  then have "pow2 e / q \<le> x / q" using qpos by (simp add: divide_right_mono)
  moreover have "pow2 e / q = of_int (2 ^ 52)"
    unfolding q_def pow2_diff [symmetric] by (simp add: pow2_def)
  ultimately have "2 ^ 52 \<le> round_even (x / q)" by (intro round_even_ge) simp
  then have "of_int (2 ^ 52) \<le> real_of_int (round_even (x / q))" by (simp only: of_int_le_iff)
  then have "of_int (2 ^ 52) * q \<le> of_int (round_even (x / q)) * q"
    using qpos by (simp only: mult_le_cancel_right_pos)
  moreover have "of_int (2 ^ 52) * q = pow2 e"
    unfolding q_def using pow2_add [of 52 "e - 52"] by (simp add: pow2_def)
  ultimately have y: "pow2 k \<le> of_int (round_even (x / q)) * q"
    using pow2_mono [OF ke] by linarith
  have "- (2 ^ 1024) < (0::real)" by simp
  then have "\<not> of_int (round_even (x / q)) * q \<le> - (2 ^ 1024)"
    using y pow2_pos [of k] by linarith
  then show ?thesis
    unfolding round64_nonzero [OF x0] q Let_def using y by simp
qed

lemma round64_of_int:
  assumes "\<bar>n\<bar> \<le> 2 ^ 53"
  shows "round64 (of_int n) = Finite (of_int n)"
proof (cases "n = 0")
  case True
  then show ?thesis by (simp add: round64_def)
next
  case False
  define x :: real where "x = of_int n"
  define e where "e = ilog2 \<bar>x\<bar>"
  have x0: "x \<noteq> 0" using False by (simp add: x_def)
  have x1: "1 \<le> \<bar>x\<bar>" using False unfolding x_def by (metis abs_ge_zero abs_zero dual_order.order_iff_strict int_one_le_iff_zero_less of_int_1_le_iff of_int_abs zero_less_abs_iff)
  have x53: "\<bar>x\<bar> \<le> pow2 53"
  proof -
    have "real_of_int \<bar>n\<bar> \<le> real_of_int (2 ^ 53)" using assms by (simp only: of_int_le_iff)
    then show ?thesis by (simp add: x_def pow2_def)
  qed
  have b: "pow2 e \<le> \<bar>x\<bar>" "\<bar>x\<bar> < pow2 (e + 1)"
    using ilog2_bounds [of "\<bar>x\<bar>"] x0 by (simp_all add: e_def)
  have "pow2 e \<le> pow2 53" using b(1) x53 by linarith
  then have e53: "e \<le> 53" by (simp only: pow2_le_iff)
  have "pow2 0 < pow2 (e + 1)" using b(2) x1 by (simp add: pow2_def)
  then have e0: "0 \<le> e" by (simp add: pow2_less_iff)
  define q where "q = pow2 (e - 52)"
  have q: "quantum x = q" using e0 by (simp add: quantum_def q_def e_def [symmetric])
  have qpos: "0 < q" by (simp add: q_def)
  have "\<exists>j. x / q = of_int j"
  proof (cases "e \<le> 52")
    case True
    have "1 / q = pow2 (0 - (e - 52))" unfolding q_def pow2_diff by (simp add: pow2_def)
    also have "\<dots> = of_int (2 ^ nat (52 - e))" using True by (simp add: pow2_def)
    finally have r: "1 / q = of_int (2 ^ nat (52 - e))" .
    have "x / q = x * (1 / q)" by simp
    also have "\<dots> = of_int (n * 2 ^ nat (52 - e))" unfolding r by (simp add: x_def)
    finally show ?thesis ..
  next
    case c: False
    then have e: "e = 53" using e53 by simp
    then have "pow2 53 \<le> \<bar>x\<bar>" using b(1) by simp
    then have "\<bar>x\<bar> = 2 ^ 53" using x53 by (simp add: pow2_def)
    then have "\<bar>n\<bar> = 2 ^ 53" unfolding x_def by (metis of_int_abs of_int_eq_iff of_int_numeral of_int_power)
    then have "n = 2 ^ 53 \<or> n = - (2 ^ 53)" by linarith
    moreover have "q = 2" by (simp add: q_def e pow2_def)
    ultimately have "x / q = of_int (2 ^ 52) \<or> x / q = of_int (- (2 ^ 52))"
      by (auto simp: x_def)
    then show ?thesis by blast
  qed
  then obtain j where j: "x / q = of_int j" ..
  then have y: "of_int (round_even (x / q)) * q = x" using qpos by (simp add: field_simps)
  have "\<bar>x\<bar> < 2 ^ 1024" using x53 by (simp add: pow2_def)
  then have "\<not> 2 ^ 1024 \<le> x" "\<not> x \<le> - (2 ^ 1024)" by linarith+
  then have "round64 x = Finite x"
    unfolding round64_nonzero [OF x0] q y Let_def by simp
  then show ?thesis by (simp add: x_def)
qed

lemma round64_of_nat: "n \<le> 2 ^ 53 \<Longrightarrow> round64 (of_nat n) = Finite (of_nat n)"
  using round64_of_int [of "int n"] by simp

subsection \<open>The literals and the ease factor in binary64\<close>

lemmas round64_eval =
  round64_def quantum_def ilog2_def compute_floorlog pow2_def round_even_def Let_def

lemma lit_0_02: "lit 0.02 = Finite (5764607523034235 / 2 ^ 58)"
  by (simp add: lit_def round64_eval)

lemma lit_0_08: "lit 0.08 = Finite (5764607523034235 / 2 ^ 56)"
  by (simp add: lit_def round64_eval)

lemma lit_0_1: "lit 0.1 = Finite (3602879701896397 / 2 ^ 55)"
  by (simp add: lit_def round64_eval)

lemma lit_1_3: "lit 1.3 = Finite (5854679515581645 / 2 ^ 52)"
  by (simp add: lit_def round64_eval)

lemma Math_max64_Finite [simp]: "Math_max64 (Finite a) (Finite b) = Finite (max a b)"
  by (simp add: Math_max64_def max_def)

lemma Math_max64_PlusInfinity [simp]: "Math_max64 (Finite a) PlusInfinity = PlusInfinity"
  by (simp add: Math_max64_def)

lemma Math_max64_MinusInfinity [simp]: "Math_max64 (Finite a) MinusInfinity = Finite a"
  by (simp add: Math_max64_def)

lemma round64_not_NaN [simp]: "round64 x \<noteq> NaN"
  by (simp add: round64_def Let_def)

lemma ease_change_finite:
  assumes "0 \<le> q" and "q \<le> 5"
  shows "\<exists>g. fsub (lit 0.1)
            (fmul (fsub (Finite 5) (Finite q))
               (fadd (lit 0.08) (fmul (fsub (Finite 5) (Finite q)) (lit 0.02)))) = Finite g"
proof -
  have "\<bar>5 - q\<bar> \<le> pow2 3" using assms by (simp add: pow2_def)
  then obtain a where a: "round64 (5 - q) = Finite a" "\<bar>a\<bar> \<le> pow2 3"
    using round64_bounded [of "5 - q" 3] by auto
  have a8: "\<bar>a\<bar> \<le> 8" using a(2) by (simp add: pow2_def)
  have s1: "fsub (Finite 5) (Finite q) = Finite a" by (simp add: fsub_def a(1))
  define c02 :: real where "c02 = 5764607523034235 / 2 ^ 58"
  define c08 :: real where "c08 = 5764607523034235 / 2 ^ 56"
  define c01 :: real where "c01 = 3602879701896397 / 2 ^ 55"
  have l02: "lit 0.02 = Finite c02" unfolding c02_def by (rule lit_0_02)
  have l08: "lit 0.08 = Finite c08" unfolding c08_def by (rule lit_0_08)
  have l01: "lit 0.1 = Finite c01" unfolding c01_def by (rule lit_0_1)
  have c02: "\<bar>c02\<bar> \<le> 1 / 32" by (simp add: c02_def)
  have c08: "\<bar>c08\<bar> \<le> 1 / 4" by (simp add: c08_def)
  have c01: "\<bar>c01\<bar> \<le> 4" by (simp add: c01_def)
  have "\<bar>a * c02\<bar> \<le> 8 * (1 / 32)"
    unfolding abs_mult using a8 c02 by (intro mult_mono) simp_all
  then have "\<bar>a * c02\<bar> \<le> pow2 (- 2)" by (simp add: pow2_def)
  then obtain b where b: "round64 (a * c02) = Finite b" "\<bar>b\<bar> \<le> pow2 (- 2)"
    using round64_bounded [of "a * c02" "- 2"] by auto
  have b4: "\<bar>b\<bar> \<le> 1 / 4" using b(2) by (simp add: pow2_def)
  have s2: "fmul (Finite a) (Finite c02) = Finite b" using b(1) by simp
  have "\<bar>c08 + b\<bar> \<le> \<bar>c08\<bar> + \<bar>b\<bar>" by (rule abs_triangle_ineq)
  also have "\<dots> \<le> 1 / 4 + 1 / 4" using b4 c08 by (intro add_mono)
  also have "\<dots> = pow2 (- 1)" by (simp add: pow2_def)
  finally obtain d where d: "round64 (c08 + b) = Finite d" "\<bar>d\<bar> \<le> pow2 (- 1)"
    using round64_bounded [of "c08 + b" "- 1"] by auto
  have d2: "\<bar>d\<bar> \<le> 1 / 2" using d(2) by (simp add: pow2_def)
  have s3: "fadd (Finite c08) (Finite b) = Finite d" using d(1) by simp
  have "\<bar>a * d\<bar> \<le> 8 * (1 / 2)"
    unfolding abs_mult using a8 d2 by (intro mult_mono) simp_all
  then have "\<bar>a * d\<bar> \<le> pow2 2" by (simp add: pow2_def)
  then obtain f where f: "round64 (a * d) = Finite f" "\<bar>f\<bar> \<le> pow2 2"
    using round64_bounded [of "a * d" 2] by auto
  have f4: "\<bar>f\<bar> \<le> 4" using f(2) by (simp add: pow2_def)
  have s4: "fmul (Finite a) (Finite d) = Finite f" using f(1) by simp
  have "\<bar>c01 + - f\<bar> \<le> \<bar>c01\<bar> + \<bar>- f\<bar>" by (rule abs_triangle_ineq)
  also have "\<dots> \<le> 4 + 4" using f4 c01 by (intro add_mono) simp_all
  also have "\<dots> = pow2 3" by (simp add: pow2_def)
  finally obtain g where g: "round64 (c01 + - f) = Finite g"
    using round64_bounded [of "c01 + - f" 3] by auto
  have s5: "fsub (Finite c01) (Finite f) = Finite g"
    unfolding fsub_def fneg.simps fadd.simps by (rule g)
  show ?thesis
    unfolding s1 l02 l08 l01 s2 s3 s4 s5 by blast
qed

lemma lit_1_3_ge: "(1.3::real) \<le> 5854679515581645 / 2 ^ 52"
  by simp

lemma spec_ease64_cases:
  assumes "0 \<le> q" and "q \<le> 5"
  shows "spec_ease64 (Finite q) (Finite e) = PlusInfinity \<or>
    (\<exists>x. spec_ease64 (Finite q) (Finite e) = Finite x \<and> 1.3 \<le> x)"
proof -
  obtain g where g: "fsub (lit 0.1)
            (fmul (fsub (Finite 5) (Finite q))
               (fadd (lit 0.08) (fmul (fsub (Finite 5) (Finite q)) (lit 0.02)))) = Finite g"
    using ease_change_finite [OF assms] ..
  have s: "spec_ease64 (Finite q) (Finite e) =
      Math_max64 (Finite (5854679515581645 / 2 ^ 52)) (round64 (e + g))"
    unfolding spec_ease64_def g lit_1_3 fadd.simps ..
  show ?thesis
  proof (cases "round64 (e + g)")
    case (Finite h)
    have "1.3 \<le> max (5854679515581645 / 2 ^ 52) h"
      using lit_1_3_ge by (simp only: le_max_iff_disj) blast
    then show ?thesis unfolding s Finite Math_max64_Finite by blast
  next
    case PlusInfinity
    then show ?thesis unfolding s by simp
  next
    case MinusInfinity
    show ?thesis unfolding s MinusInfinity Math_max64_MinusInfinity using lit_1_3_ge by blast
  next
    case NaN
    then show ?thesis by simp
  qed
qed

lemma Math_max64_ge:
  "b \<noteq> NaN \<Longrightarrow> le (Finite c) (Math_max64 (Finite c) b) \<and> \<not> lt (Math_max64 (Finite c) b) (Finite c)"
  by (cases b) (simp_all add: max_def)

lemma spec_ease64_ge_lit:
  assumes "0 \<le> q" and "q \<le> 5"
  shows "le (lit 1.3) (spec_ease64 (Finite q) (Finite e))
    \<and> \<not> lt (spec_ease64 (Finite q) (Finite e)) (lit 1.3)"
proof -
  obtain g where g: "fsub (lit 0.1)
            (fmul (fsub (Finite 5) (Finite q))
               (fadd (lit 0.08) (fmul (fsub (Finite 5) (Finite q)) (lit 0.02)))) = Finite g"
    using ease_change_finite [OF assms] ..
  have s: "spec_ease64 (Finite q) (Finite e) =
      Math_max64 (Finite (5854679515581645 / 2 ^ 52)) (round64 (e + g))"
    unfolding spec_ease64_def g lit_1_3 fadd.simps ..
  show ?thesis unfolding s lit_1_3 by (rule Math_max64_ge) simp
qed

subsection \<open>The calculator on binary64 numbers\<close>

lemma calculateSM2_binary64_valid:
  assumes "0 \<le> q" and "q \<le> 5"
  shows "\<exists>d. calculateSM2_binary64 tz now
        \<lparr>SM2Input64.quality = Finite q, repetitions = r, easeFactor = e, interval = i\<rparr> =
      Inr \<lparr>SM2Result64.interval =
              (if q < 3 then Finite 1
               else if strict_eq (fadd r (Finite 1)) (Finite 1) then Finite 1
               else if strict_eq (fadd r (Finite 1)) (Finite 2) then Finite 6
               else Math_round64 (fmul i (spec_ease64 (Finite q) e))),
            repetitions = (if q < 3 then Finite 0 else fadd r (Finite 1)),
            easeFactor = spec_ease64 (Finite q) e,
            nextReviewDate = d\<rparr>"
  using assms by (simp add: calculateSM2_binary64_def Let_def spec_ease64_def not_less)



lemma fadd_count:
  assumes "n < 2 ^ 53"
  shows "fadd (Finite (of_nat n)) (Finite 1) = Finite (of_nat n + 1)"
proof -
  have "round64 (of_nat (n + 1)) = Finite (of_nat (n + 1))"
    using assms by (intro round64_of_nat) simp
  then show ?thesis by (simp add: add.commute)
qed

lemma seven_halves_not_int: "(3.5::real) \<notin> \<int>"
proof
  assume "(3.5::real) \<in> \<int>"
  then obtain k :: int where "(3.5::real) = of_int k" by (auto simp: Ints_def)
  then have "of_int (2 * k) = (7::real)" by simp
  then have "2 * k = 7" using of_int_eq_iff by (metis of_int_numeral)
  then show False by presburger
qed

lemmas calculateSM2_binary64_eval =
  state64_def calculateSM2_binary64_def lit_def fsub_def Math_max64_def strict_eq_def
  round64_eval

subsection \<open>Rounding and the ease factor in exact arithmetic\<close>

lemma round_half_away_nonneg: "0 \<le> x \<Longrightarrow> round_half_away x = Math_round x"
  by (cases "x = 0") (simp_all add: round_half_away_def Math_round_def)

lemma Math_round_negative_half: "Math_round (- 2.5) = - 2 \<and> round_half_away (- 2.5) = - 3"
  by (simp add: Math_round_def round_half_away_def)

lemma Math_round_ge_one: "1 \<le> x \<Longrightarrow> 1 \<le> Math_round x"
  unfolding Math_round_def by (simp add: le_floor_iff)

lemma spec_ease_lower: "1.3 \<le> spec_ease q e"
  by (simp add: spec_ease_def)

text \<open>What \<^const>\<open>calculateSM2\<close> returns for a quality that passes the check.\<close>

lemma calculateSM2_valid:
  assumes "0 \<le> q" and "q \<le> 5"
  shows "calculateSM2 now \<lparr>quality = q, repetitions = r, easeFactor = e, interval = i\<rparr> =
      Inr \<lparr>SM2Result.interval =
              (if q < 3 then 1 else if r + 1 = 1 then 1 else if r + 1 = 2 then 6
               else Math_round (i * spec_ease q e)),
            repetitions = (if q < 3 then 0 else r + 1),
            easeFactor = spec_ease q e,
            nextReviewDate =
              now + (if q < 3 then 1 else if r + 1 = 1 then 1 else if r + 1 = 2 then 6
                     else Math_round (i * spec_ease q e))\<rparr>"
  using assms by (simp add: calculateSM2_def Let_def spec_ease_def)

subsection \<open>Orderings\<close>

lemma sorting_sort_key: "sorting sort_key"
  by (simp add: sorting_def)

lemma sorting_sort_key_rev: "sorting sort_key_rev"
  by (simp add: sorting_def sort_key_rev_def)

lemma sorting_set: "sorting ord \<Longrightarrow> set (ord key xs) = set xs"
  unfolding sorting_def by (metis mset_eq_setD)

lemma sorting_sorted: "sorting ord \<Longrightarrow> sorted (map key (ord key xs))"
  unfolding sorting_def by blast

lemma sorting_mset: "sorting ord \<Longrightarrow> mset (ord key xs) = mset xs"
  unfolding sorting_def by blast

lemma set_due_rows:
  assumes "sorting ord"
  shows "set (due_rows ord db uid now) =
    {r \<in> set (card_reviews db). user_id r = uid \<and> next_review_date r \<le> now}"
  unfolding due_rows_def sorting_set [OF assms] by auto

text \<open>Two sorted arrangements of the same rows show the same sequence of keys.\<close>

lemma sorted_keys_unique:
  fixes key :: "'a \<Rightarrow> int"
  assumes "mset xs = mset ys" and "sorted (map key xs)" and "sorted (map key ys)"
  shows "map key xs = map key ys"
proof -
  have "mset (map key xs) = mset (map key ys)" using assms(1) by (metis mset_map)
  then have "sort (map key ys) = map key xs" using assms(2) by (rule properties_for_sort)
  moreover have "sort (map key ys) = map key ys" using assms(3) by (rule sorted_sort_id)
  ultimately show ?thesis by simp
qed

subsection \<open>The mapping of the response\<close>

lemma map_items_Inl_iff:
  "map_items xs = Inl e \<longleftrightarrow> e = null_read \<and> (\<exists>x\<in>set xs. cards x = None)"
  by (induction xs) (auto split: sum.splits option.splits simp: toDueCard_def)

lemma map_items_Inr_map: "map_items xs = Inr cs \<Longrightarrow> cs = map (projr \<circ> toDueCard) xs"
  by (induction xs arbitrary: cs) (auto split: sum.splits)

lemma toDueCard_embed_id:
  "toDueCard (embed db deckId r) = Inr c \<Longrightarrow> DueCard.id' c = review_row.card_id r"
  by (auto simp: toDueCard_def embed_def find_Some_iff split: option.splits)

lemma map_items_embed_ids:
  "map_items (map (embed db deckId) rows) = Inr cs \<Longrightarrow>
    map DueCard.id' cs = map review_row.card_id rows"
proof (induction rows arbitrary: cs)
  case Nil
  then show ?case by simp
next
  case (Cons r rows)
  then show ?case
    by (auto split: sum.splits dest: toDueCard_embed_id)
qed

text \<open>Without a deck filter every row whose card exists has its card embedded.\<close>

lemma embed_no_deck:
  assumes "\<exists>c\<in>set (supabase.cards db). card.id' c = review_row.card_id r"
  shows "cards (embed db None r) \<noteq> None"
  using assms by (auto simp: embed_def find_None_iff)

text \<open>The cards of a response do not depend on the order of its rows, only their order does.\<close>

lemma unordered_map_items:
  assumes "mset xs = mset ys"
  shows "unordered (map_items xs) = unordered (map_items ys)"
proof (cases "\<exists>x\<in>set xs. cards x = None")
  case True
  moreover have "set xs = set ys" using assms by (rule mset_eq_setD)
  ultimately have "map_items xs = Inl null_read" and "map_items ys = Inl null_read"
    by (simp_all add: map_items_Inl_iff)
  then show ?thesis by simp
next
  case False
  moreover have sets: "set xs = set ys" using assms by (rule mset_eq_setD)
  ultimately have "\<And>e. map_items xs \<noteq> Inl e" and "\<And>e. map_items ys \<noteq> Inl e"
    by (simp_all add: map_items_Inl_iff)
  then obtain cs ds where cs: "map_items xs = Inr cs" and ds: "map_items ys = Inr ds"
    by (metis sum.exhaust)
  have c: "cs = map (projr \<circ> toDueCard) xs" using cs by (rule map_items_Inr_map)
  have d: "ds = map (projr \<circ> toDueCard) ys" using ds by (rule map_items_Inr_map)
  have "mset cs = mset ds"
    unfolding c d mset_map using assms by simp
  then show ?thesis by (simp add: cs ds unordered_def)
qed

subsection \<open>Evaluating the streak tracker\<close>
lemmas updateUserStreak_eval =
  streak_after_def row_after_def updateUserStreak_def toISODate_def setDate_plus_def
  TimeClip_def UTC_def LocalTime_def msPerDay_def



section \<open>The review calculator\<close>



text \<open>
  Claim C2. For every quality in \<open>[0, 5]\<close> and every ease factor, the ease factor that
  \<^const>\<open>calculateSM2_binary64\<close> returns is
  \<^verbatim>\<open>max(1.3, easeFactor + (0.1 - (5 - quality) * (0.08 + (5 - quality) * 0.02)))\<close> with every
  literal and every operation in binary64, in the order of the formula; it is never below
  the binary64 literal \<^verbatim>\<open>1.3\<close>, and never below the real number 1.3.
\<close>

theorem calculateSM2_binary64_easeFactor:
  assumes "0 \<le> q" and "q \<le> 5"
  shows "\<exists>res. calculateSM2_binary64 tz now
        \<lparr>SM2Input64.quality = Finite q, repetitions = r, easeFactor = Finite e, interval = i\<rparr>
        = Inr res
    \<and> SM2Result64.easeFactor res =
        Math_max64 (lit 1.3)
          (fadd (Finite e)
             (fsub (lit 0.1)
                (fmul (fsub (Finite 5) (Finite q))
                   (fadd (lit 0.08) (fmul (fsub (Finite 5) (Finite q)) (lit 0.02))))))
    \<and> le (lit 1.3) (SM2Result64.easeFactor res)
    \<and> \<not> lt (SM2Result64.easeFactor res) (lit 1.3)
    \<and> le (Finite 1.3) (SM2Result64.easeFactor res)
    \<and> \<not> lt (SM2Result64.easeFactor res) (Finite 1.3)"
proof -
  obtain res where
    res: "calculateSM2_binary64 tz now
        \<lparr>SM2Input64.quality = Finite q, repetitions = r, easeFactor = Finite e, interval = i\<rparr>
        = Inr res"
    and ease: "SM2Result64.easeFactor res = spec_ease64 (Finite q) (Finite e)"
    using calculateSM2_binary64_valid [OF assms, of tz now r "Finite e" i] by auto
  have a: "le (lit 1.3) (SM2Result64.easeFactor res)
      \<and> \<not> lt (SM2Result64.easeFactor res) (lit 1.3)"
    unfolding ease by (rule spec_ease64_ge_lit [OF assms])
  have b: "le (Finite 1.3) (SM2Result64.easeFactor res)
      \<and> \<not> lt (SM2Result64.easeFactor res) (Finite 1.3)"
    unfolding ease using spec_ease64_cases [OF assms, of e] by auto
  show ?thesis
  proof (intro exI conjI)
    show "calculateSM2_binary64 tz now
        \<lparr>SM2Input64.quality = Finite q, repetitions = r, easeFactor = Finite e, interval = i\<rparr>
        = Inr res" by (rule res)
    show "SM2Result64.easeFactor res =
        Math_max64 (lit 1.3)
          (fadd (Finite e)
             (fsub (lit 0.1)
                (fmul (fsub (Finite 5) (Finite q))
                   (fadd (lit 0.08) (fmul (fsub (Finite 5) (Finite q)) (lit 0.02))))))"
      unfolding ease spec_ease64_def ..
    show "le (lit 1.3) (SM2Result64.easeFactor res)" using a ..
    show "\<not> lt (SM2Result64.easeFactor res) (lit 1.3)" using a ..
    show "le (Finite 1.3) (SM2Result64.easeFactor res)" using b ..
    show "\<not> lt (SM2Result64.easeFactor res) (Finite 1.3)" using b ..
  qed
qed

text \<open>The theorem for a new card failed with quality 0, whose ease factor 2.5 becomes
  1.7000000000000002, the binary64 value \<^verbatim>\<open>1914029841632461 / 2^50\<close>, where exact arithmetic
  gives 1.7; and for an ease factor of 1.5, which falls to the floor.\<close>
theorem calculateSM2_binary64_easeFactor_witness:
  "(0::real) \<le> 0 \<and> (0::real) \<le> 5 \<and>
   state64 (calculateSM2_binary64 utc_zone 0
     \<lparr>SM2Input64.quality = Finite 0, repetitions = Finite 0, easeFactor = Finite 2.5,
      interval = Finite 0\<rparr>)
     = Some (Finite (1914029841632461 / 2 ^ 50), Finite 1, Finite 0) \<and>
   state64 (calculateSM2_binary64 utc_zone 0
     \<lparr>SM2Input64.quality = Finite 0, repetitions = Finite 4, easeFactor = Finite 1.5,
      interval = Finite 30\<rparr>)
     = Some (lit 1.3, Finite 1, Finite 0)"
  using calculateSM2_binary64_easeFactor [of 0 utc_zone 0 "Finite 0" "2.5" "Finite 0"]
  by (simp add: calculateSM2_binary64_eval)

text \<open>
  Claim C3, as the code has it. For the state \<open>{easeFactor: 2.5, interval: 6, repetitions: 2}\<close>
  and quality 3 the ease factor drops by 0.14, to 2.36, so the new interval is
  \<open>round (6 * 2.36) = 14\<close>; the repetitions become 3.
\<close>

theorem calculateSM2_good_example:
  "state_of (calculateSM2 now
      \<lparr>quality = 3, repetitions = 2, easeFactor = 2.5, interval = 6\<rparr>)
    = Some (2.36, 14, 3)"
  by (simp add: calculateSM2_def state_of_def Math_round_def)

text \<open>Claim C3 as the specification states it (ease factor 2.5, interval 15, repetitions 3)
  does not hold: these are the values for quality 4.\<close>

theorem calculateSM2_good_example_counterexample:
  "state_of (calculateSM2 0
      \<lparr>quality = 3, repetitions = 2, easeFactor = 2.5, interval = 6\<rparr>)
    \<noteq> Some (2.5, 15, 3)"
  by (simp add: calculateSM2_def state_of_def Math_round_def)

text \<open>
  Claim C4. \<^const>\<open>calculateSM2\<close> throws \<^const>\<open>InvalidQuality\<close> exactly when the quality is
  below 0 or above 5, and it throws nothing else; qualities 6 and \<open>-1\<close> are rejected, and
  for a quality in \<open>[0, 5]\<close>, with any state, it returns a result.
\<close>

theorem calculateSM2_InvalidQuality:
  "(calculateSM2 now input = Inl InvalidQuality) = (quality input < 0 \<or> 5 < quality input)
   \<and> isl (calculateSM2 now input) = (calculateSM2 now input = Inl InvalidQuality)
   \<and> calculateSM2 now (input\<lparr>quality := 6\<rparr>) = Inl InvalidQuality
   \<and> calculateSM2 now (input\<lparr>quality := - 1\<rparr>) = Inl InvalidQuality
   \<and> (\<exists>res. calculateSM2 now input = Inr res) = (0 \<le> quality input \<and> quality input \<le> 5)"
  by (auto simp: calculateSM2_def Let_def InvalidQuality_def split: prod.splits)

text \<open>
  Claim C9. For every quality in \<open>[0, 5]\<close> and every state whose ease factor is at least 1.3,
  whose repetitions are a count (a natural number) and whose interval is at least 1 once the
  repetitions are at least 1, the state that \<^const>\<open>calculateSM2\<close> returns has an interval of
  at least 1 when its repetitions are at least 1; its interval is never 0.
\<close>

theorem calculateSM2_interval_invariant:
  assumes "0 \<le> q" and "q \<le> 5" and "1.3 \<le> e" and "r \<in> \<nat>" and "1 \<le> r \<longrightarrow> 1 \<le> i"
  shows "\<exists>res. calculateSM2 now \<lparr>quality = q, repetitions = r, easeFactor = e, interval = i\<rparr>
        = Inr res
    \<and> (1 \<le> SM2Result.repetitions res \<longrightarrow> 1 \<le> SM2Result.interval res)
    \<and> SM2Result.interval res \<noteq> 0"
proof -
  obtain n :: nat where r: "r = real n"
    using assms(4) by (auto simp: Nats_def)
  note valid = calculateSM2_valid [OF assms(1,2), of now r e i]
  show ?thesis
  proof (cases "q < 3")
    case True
    then show ?thesis using valid by simp
  next
    case False
    show ?thesis
    proof (cases "n < 2")
      case True
      then have "n = 0 \<or> n = 1" by arith
      then show ?thesis using valid False r by auto
    next
      case n2: False
      then have i1: "1 \<le> i" using assms(5) r by simp
      have "1 * 1 \<le> i * spec_ease q e"
        using i1 spec_ease_lower [of q e] by (intro mult_mono) simp_all
      then have "1 \<le> Math_round (i * spec_ease q e)"
        by (simp add: Math_round_ge_one)
      then show ?thesis using valid False r n2 by auto
    qed
  qed
qed

text \<open>The theorem at the third success of a card with interval 6, and at the first review
  of a new card, whose interval is 0.\<close>

theorem calculateSM2_interval_invariant_witness:
  "(0::real) \<le> 5 \<and> (5::real) \<le> 5 \<and> (1.3::real) \<le> 2.5 \<and> (2::real) \<in> \<nat> \<and> (1::real) \<le> 6 \<and>
   state_of (calculateSM2 0 \<lparr>quality = 5, repetitions = 2, easeFactor = 2.5, interval = 6\<rparr>)
     = Some (2.6, 16, 3) \<and>
   state_of (calculateSM2 0 \<lparr>quality = 5, repetitions = 0, easeFactor = 2.5, interval = 0\<rparr>)
     = Some (2.6, 1, 1)"
  using calculateSM2_interval_invariant [of 5 "2.5" 2 6 0]
  by (simp add: state_of_def calculateSM2_def Math_round_def)

text \<open>
  Claim C10. \<^const>\<open>calculateSM2_binary64\<close> does not require the quality to be an integer: for
  every quality in \<open>[0, 5]\<close>, integer or not, and every state, it does not throw
  \<^const>\<open>InvalidQuality\<close> and returns the state that the formulas of the ease factor, of the
  repetitions and of the interval give at this quality, in binary64.
\<close>
theorem calculateSM2_binary64_fractional_quality:
  assumes "0 \<le> q" and "q \<le> 5"
  shows "calculateSM2_binary64 tz now
        \<lparr>SM2Input64.quality = Finite q, repetitions = r, easeFactor = e, interval = i\<rparr>
        \<noteq> Inl InvalidQuality
    \<and> state64 (calculateSM2_binary64 tz now
        \<lparr>SM2Input64.quality = Finite q, repetitions = r, easeFactor = e, interval = i\<rparr>)
      = Some (spec_ease64 (Finite q) e,
              (if q < 3 then Finite 1
               else if strict_eq (fadd r (Finite 1)) (Finite 1) then Finite 1
               else if strict_eq (fadd r (Finite 1)) (Finite 2) then Finite 6
               else Math_round64 (fmul i (spec_ease64 (Finite q) e))),
              (if q < 3 then Finite 0 else fadd r (Finite 1)))"
proof -
  obtain d where "calculateSM2_binary64 tz now
        \<lparr>SM2Input64.quality = Finite q, repetitions = r, easeFactor = e, interval = i\<rparr> =
      Inr \<lparr>SM2Result64.interval =
              (if q < 3 then Finite 1
               else if strict_eq (fadd r (Finite 1)) (Finite 1) then Finite 1
               else if strict_eq (fadd r (Finite 1)) (Finite 2) then Finite 6
               else Math_round64 (fmul i (spec_ease64 (Finite q) e))),
            repetitions = (if q < 3 then Finite 0 else fadd r (Finite 1)),
            easeFactor = spec_ease64 (Finite q) e,
            nextReviewDate = d\<rparr>"
    using calculateSM2_binary64_valid [OF assms] by blast
  then show ?thesis by (simp add: state64_def)
qed

text \<open>The theorem at the quality 3.5, which is no integer, at the third success of a card
  with interval 25 and ease factor 4.125: the new ease factor is 4.06 and the new interval
  101, where the exact product 101.5 would give 102. The quality 2.5 is a failure: ease
  factor 2.275, interval 1, repetitions 0.\<close>
theorem calculateSM2_binary64_fractional_quality_witness:
  "(0::real) \<le> 3.5 \<and> (3.5::real) \<le> 5 \<and> (3.5::real) \<notin> \<int> \<and>
   state64 (calculateSM2_binary64 utc_zone 0
     \<lparr>SM2Input64.quality = Finite 3.5, repetitions = Finite 2, easeFactor = Finite 4.125,
      interval = Finite 25\<rparr>)
     = Some (Finite (4571153621781053 / 2 ^ 50), Finite 101, Finite 3) \<and>
   state64 (calculateSM2_binary64 utc_zone 0
     \<lparr>SM2Input64.quality = Finite 2.5, repetitions = Finite 2, easeFactor = Finite 2.5,
      interval = Finite 6\<rparr>)
     = Some (lit 2.275, Finite 1, Finite 0)"
  using calculateSM2_binary64_fractional_quality
    [of "3.5" utc_zone 0 "Finite 2" "Finite 4.125" "Finite 25"] seven_halves_not_int
  by (simp add: calculateSM2_binary64_eval spec_ease64_def)

subsection \<open>The example, the check and the invariant in binary64\<close>

text \<open>The worked example, the check of the quality and the lower bound of the interval,
  proved of \<^const>\<open>calculateSM2\<close> above, hold of \<^const>\<open>calculateSM2_binary64\<close> as well: at the
  state \<open>{easeFactor: 2.5, interval: 6, repetitions: 2}\<close> and quality 3 the two functions
  return the same interval and repetitions, and the binary64 value of the same ease factor.\<close>
lemma calculateSM2_binary64_good_example:
  "state64 (calculateSM2_binary64 tz now
     \<lparr>SM2Input64.quality = Finite 3, repetitions = Finite 2, easeFactor = Finite 2.5,
      interval = Finite 6\<rparr>)
   = Some (lit 2.36, Finite 14, Finite 3)"
  by (simp add: calculateSM2_binary64_eval)

lemma calculateSM2_binary64_InvalidQuality:
  "(calculateSM2_binary64 tz now input = Inl InvalidQuality) =
      (lt (SM2Input64.quality input) (Finite 0) \<or> lt (Finite 5) (SM2Input64.quality input))
   \<and> isl (calculateSM2_binary64 tz now input) =
      (calculateSM2_binary64 tz now input = Inl InvalidQuality)"
  by (auto simp: calculateSM2_binary64_def Let_def InvalidQuality_def split: prod.splits)

lemma calculateSM2_binary64_interval_invariant:
  assumes "0 \<le> q" and "q \<le> 5" and "n < 2 ^ 53" and "1 \<le> n \<longrightarrow> 1 \<le> i"
  shows "\<exists>res. calculateSM2_binary64 tz now
        \<lparr>SM2Input64.quality = Finite q, repetitions = Finite (of_nat n),
         easeFactor = Finite e, interval = Finite i\<rparr> = Inr res
    \<and> (le (Finite 1) (SM2Result64.repetitions res) \<longrightarrow> le (Finite 1) (SM2Result64.interval res))
    \<and> SM2Result64.interval res \<noteq> Finite 0"
proof -
  obtain d where v: "calculateSM2_binary64 tz now
        \<lparr>SM2Input64.quality = Finite q, repetitions = Finite (of_nat n),
         easeFactor = Finite e, interval = Finite i\<rparr> =
      Inr \<lparr>SM2Result64.interval =
              (if q < 3 then Finite 1
               else if strict_eq (fadd (Finite (of_nat n)) (Finite 1)) (Finite 1) then Finite 1
               else if strict_eq (fadd (Finite (of_nat n)) (Finite 1)) (Finite 2) then Finite 6
               else Math_round64 (fmul (Finite i) (spec_ease64 (Finite q) (Finite e)))),
            repetitions = (if q < 3 then Finite 0 else fadd (Finite (of_nat n)) (Finite 1)),
            easeFactor = spec_ease64 (Finite q) (Finite e),
            nextReviewDate = d\<rparr>"
    using calculateSM2_binary64_valid [OF assms(1,2)] by blast
  note rep = fadd_count [OF assms(3)]
  show ?thesis
  proof (cases "q < 3 \<or> n < 2")
    case True
    then have "q < 3 \<or> n = 0 \<or> n = 1" by arith
    then show ?thesis using v rep by (auto simp: strict_eq_def)
  next
    case False
    then have q: "\<not> q < 3" and n: "2 \<le> n" by simp_all
    then have i: "1 \<le> i" using assms(4) by simp
    have "le (Finite 1) (Math_round64 (fmul (Finite i) (spec_ease64 (Finite q) (Finite e))))
        \<and> Math_round64 (fmul (Finite i) (spec_ease64 (Finite q) (Finite e))) \<noteq> Finite 0"
      using spec_ease64_cases [OF assms(1,2), of e]
    proof
      assume "spec_ease64 (Finite q) (Finite e) = PlusInfinity"
      then show ?thesis using i by simp
    next
      assume "\<exists>x. spec_ease64 (Finite q) (Finite e) = Finite x \<and> 1.3 \<le> x"
      then obtain x where x: "spec_ease64 (Finite q) (Finite e) = Finite x" "1.3 \<le> x" by blast
      have "1 * 1 \<le> i * x" using i x(2) by (intro mult_mono) simp_all
      then have "pow2 0 \<le> i * x" by (simp add: pow2_def)
      then consider "round64 (i * x) = PlusInfinity"
        | y where "round64 (i * x) = Finite y" "pow2 0 \<le> y"
        using round64_lower [of 0 "i * x"] by auto
      then show ?thesis
      proof cases
        case 1
        then show ?thesis by (simp add: x(1))
      next
        case 2
        define k where "k = \<lfloor>y + 1 / 2\<rfloor>"
        have "1 \<le> y" using 2(2) by (simp add: pow2_def)
        then have "1 \<le> k" unfolding k_def by linarith
        then have k: "(1::real) \<le> of_int k" "real_of_int k \<noteq> 0" by simp_all
        have "Math_round64 (fmul (Finite i) (Finite x)) = Finite (of_int k)"
          by (simp add: 2(1) k_def)
        then show ?thesis unfolding x(1) using k by simp
      qed
    qed
    then show ?thesis using v rep q n by (auto simp: strict_eq_def)
  qed
qed

text \<open>Where exact arithmetic and binary64 part: the product of the interval 3 and the ease
  factor 3.1666666666666665.\<close>
lemma exact_product_differs:
  "round_half_away (3 * (7130699410003285 / 2 ^ 51)) = 9
   \<and> round_half_away64 (fmul (Finite 3) (Finite (7130699410003285 / 2 ^ 51))) = Finite 10"
  by (simp add: round_half_away_def round64_eval)

section \<open>The due selector\<close>

text \<open>
  Claim C5. Whatever the table of review states and the instant \<open>now\<close>, and however the
  database orders rows with equal dates, the cards that \<^const>\<open>fetchDueCards\<close> returns are,
  in this order, those of the learner's review rows with \<open>next_review_date \<le> now\<close>, and the
  dates of these rows are non-decreasing. When none of the learner's rows is due the result
  is the empty list, not an error; and without a deck filter, when every review row has its
  card, a result is returned.
\<close>

theorem fetchDueCards_due_sorted:
  assumes "sorting ord"
  shows "(\<forall>cs. fetchDueCards ord db now deckId = Inr cs \<longrightarrow>
           (\<exists>uid rows. session db = Some uid \<and> rows = due_rows ord db uid now \<and>
              map DueCard.id' cs = map review_row.card_id rows \<and>
              set rows =
                {r \<in> set (card_reviews db). user_id r = uid \<and> next_review_date r \<le> now} \<and>
              (\<forall>r\<in>set rows. next_review_date r \<le> now) \<and>
              sorted (map next_review_date rows)))
       \<and> (\<forall>uid. session db = Some uid \<and> fault db = None \<and>
            (\<forall>r\<in>set (card_reviews db). user_id r = uid \<longrightarrow> now < next_review_date r) \<longrightarrow>
            fetchDueCards ord db now deckId = Inr [])
       \<and> (session db \<noteq> None \<and> fault db = None \<and>
            (\<forall>r\<in>set (card_reviews db).
                \<exists>c\<in>set (supabase.cards db). card.id' c = review_row.card_id r) \<longrightarrow>
            (\<exists>cs. fetchDueCards ord db now None = Inr cs))"
proof (intro conjI allI impI)
  fix cs
  assume ret: "fetchDueCards ord db now deckId = Inr cs"
  then obtain uid where uid: "session db = Some uid"
    and items: "map_items (map (embed db deckId) (due_rows ord db uid now)) = Inr cs"
    by (auto simp: fetchDueCards_def split: option.splits)
  let ?rows = "due_rows ord db uid now"
  note set_rows = set_due_rows [OF assms, of db uid now]
  have "map DueCard.id' cs = map review_row.card_id ?rows"
    using items by (rule map_items_embed_ids)
  moreover have "\<forall>r\<in>set ?rows. next_review_date r \<le> now"
    using set_rows by blast
  moreover have "sorted (map next_review_date ?rows)"
    unfolding due_rows_def by (rule sorting_sorted [OF assms])
  ultimately show "\<exists>uid rows. session db = Some uid \<and> rows = due_rows ord db uid now \<and>
      map DueCard.id' cs = map review_row.card_id rows \<and>
      set rows = {r \<in> set (card_reviews db). user_id r = uid \<and> next_review_date r \<le> now} \<and>
      (\<forall>r\<in>set rows. next_review_date r \<le> now) \<and>
      sorted (map next_review_date rows)"
    using uid set_rows by blast
next
  fix uid
  assume a: "session db = Some uid \<and> fault db = None \<and>
    (\<forall>r\<in>set (card_reviews db). user_id r = uid \<longrightarrow> now < next_review_date r)"
  then have "set (due_rows ord db uid now) = {}"
    unfolding set_due_rows [OF assms] by fastforce
  then have "due_rows ord db uid now = []" by simp
  then show "fetchDueCards ord db now deckId = Inr []"
    using a by (simp add: fetchDueCards_def)
next
  assume a: "session db \<noteq> None \<and> fault db = None \<and>
    (\<forall>r\<in>set (card_reviews db). \<exists>c\<in>set (supabase.cards db). card.id' c = review_row.card_id r)"
  then obtain uid where uid: "session db = Some uid" by auto
  have "cards (embed db None r) \<noteq> None" if "r \<in> set (due_rows ord db uid now)" for r
  proof -
    have "r \<in> set (card_reviews db)"
      using that unfolding set_due_rows [OF assms] by simp
    then have "\<exists>c\<in>set (supabase.cards db). card.id' c = review_row.card_id r"
      using a by blast
    then show ?thesis by (rule embed_no_deck)
  qed
  then have "\<forall>x\<in>set (map (embed db None) (due_rows ord db uid now)). cards x \<noteq> None"
    by auto
  then have "\<And>e. map_items (map (embed db None) (due_rows ord db uid now)) \<noteq> Inl e"
    unfolding map_items_Inl_iff by blast
  then obtain cs where "map_items (map (embed db None) (due_rows ord db uid now)) = Inr cs"
    by (metis sum.exhaust)
  then show "\<exists>cs. fetchDueCards ord db now None = Inr cs"
    using a uid by (simp add: fetchDueCards_def)
qed

text \<open>The theorem on three states due at \<open>T - 3\<close>, \<open>T - 1\<close> and \<open>T + 1\<close>: at \<open>T = 10\<close> the first
  two are returned, the oldest first; at the instant 6 nothing is due and the result is the
  empty list.\<close>

theorem fetchDueCards_due_sorted_witness:
  "sorting sort_key \<and>
   card_ids (fetchDueCards sort_key three_states 10 None) = Some [''a'', ''b''] \<and>
   due_rows sort_key three_states ''learner'' 10 = [example_review ''a'' 7, example_review ''b'' 9] \<and>
   fetchDueCards sort_key three_states 6 None = Inr []"
  using fetchDueCards_due_sorted [OF sorting_sort_key, of three_states 10 None]
    fetchDueCards_due_sorted [OF sorting_sort_key, of three_states 6 None]
  by (simp add: sorting_sort_key card_ids_def fetchDueCards_def three_states_def example_db_def
      example_review_def example_card_def due_rows_def embed_def toDueCard_def)

text \<open>
  Claim C6, as the code has it. The query orders by \<open>next_review_date\<close> and by nothing else.
  Two runs on the same table and the same instant return the same cards, and their rows show
  the same sequence of dates; when no two due rows of the learner share a date, the two
  results are equal, order included. The order of cards that are due at the same instant is
  left to the database.
\<close>

theorem fetchDueCards_up_to_ties:
  assumes "sorting ord1" and "sorting ord2"
  shows "unordered (fetchDueCards ord1 db now deckId) = unordered (fetchDueCards ord2 db now deckId)
       \<and> map next_review_date (due_rows ord1 db uid now) =
           map next_review_date (due_rows ord2 db uid now)
       \<and> (session db = Some uid \<and>
            inj_on next_review_date
              {r \<in> set (card_reviews db). user_id r = uid \<and> next_review_date r \<le> now} \<longrightarrow>
            fetchDueCards ord1 db now deckId = fetchDueCards ord2 db now deckId)"
proof (intro conjI impI)
  have rows: "mset (due_rows ord1 db u now) = mset (due_rows ord2 db u now)" for u
    unfolding due_rows_def sorting_mset [OF assms(1)] sorting_mset [OF assms(2)] ..
  have keys: "map next_review_date (due_rows ord1 db u now) =
      map next_review_date (due_rows ord2 db u now)" for u
    using rows unfolding due_rows_def
    by (rule sorted_keys_unique) (rule sorting_sorted [OF assms(1)], rule sorting_sorted [OF assms(2)])
  show "map next_review_date (due_rows ord1 db uid now) =
      map next_review_date (due_rows ord2 db uid now)"
    by (rule keys)
  have "unordered (map_items (map (embed db deckId) (due_rows ord1 db u now))) =
        unordered (map_items (map (embed db deckId) (due_rows ord2 db u now)))" for u
    by (rule unordered_map_items) (simp add: rows)
  then show "unordered (fetchDueCards ord1 db now deckId) =
      unordered (fetchDueCards ord2 db now deckId)"
    by (simp add: fetchDueCards_def split: option.splits)
  assume a: "session db = Some uid \<and>
    inj_on next_review_date
      {r \<in> set (card_reviews db). user_id r = uid \<and> next_review_date r \<le> now}"
  have "inj_on next_review_date
      (set (due_rows ord1 db uid now) \<union> set (due_rows ord2 db uid now))"
    using a unfolding set_due_rows [OF assms(1)] set_due_rows [OF assms(2)] by simp
  then have "due_rows ord1 db uid now = due_rows ord2 db uid now"
    using keys [of uid] by (simp add: inj_on_map_eq_map)
  then show "fetchDueCards ord1 db now deckId = fetchDueCards ord2 db now deckId"
    using a by (simp add: fetchDueCards_def split: option.splits)
qed

text \<open>The theorem for a stable sort of the table and a stable sort of the table read
  backwards: on the two tied states they return the same cards, and on the three states with
  distinct dates the same list.\<close>

theorem fetchDueCards_up_to_ties_witness:
  "sorting sort_key \<and> sorting sort_key_rev \<and>
   unordered (fetchDueCards sort_key tied_states 10 None) =
     unordered (fetchDueCards sort_key_rev tied_states 10 None) \<and>
   session three_states = Some ''learner'' \<and>
   inj_on next_review_date
     {r \<in> set (card_reviews three_states). user_id r = ''learner'' \<and> next_review_date r \<le> 10} \<and>
   fetchDueCards sort_key three_states 10 None = fetchDueCards sort_key_rev three_states 10 None"
proof -
  have i: "inj_on next_review_date
     {r \<in> set (card_reviews three_states). user_id r = ''learner'' \<and> next_review_date r \<le> 10}"
    by (auto simp: inj_on_def three_states_def example_db_def example_review_def)
  have s: "session three_states = Some ''learner''"
    by (simp add: three_states_def example_db_def)
  show ?thesis
    using fetchDueCards_up_to_ties [OF sorting_sort_key sorting_sort_key_rev, of tied_states 10 None]
      fetchDueCards_up_to_ties [OF sorting_sort_key sorting_sort_key_rev,
        of three_states 10 None "''learner''"]
      i s
    by (simp add: sorting_sort_key sorting_sort_key_rev)
qed

text \<open>
  Claim C6 as the specification states it does not hold. Two cards \<open>a\<close> and \<open>b\<close> are due at the
  same instant; both orderings below are non-decreasing in \<open>next_review_date\<close>, which is all
  the query asks for, and they return the cards in different orders. No card identifier, nor
  any other second key, decides between them.
\<close>

theorem fetchDueCards_ties_counterexample:
  "sorting sort_key \<and> sorting sort_key_rev \<and>
   card_ids (fetchDueCards sort_key tied_states 10 None) = Some [''a'', ''b''] \<and>
   card_ids (fetchDueCards sort_key_rev tied_states 10 None) = Some [''b'', ''a'']"
  by (simp add: sorting_sort_key sorting_sort_key_rev card_ids_def fetchDueCards_def
      tied_states_def example_db_def sort_key_rev_def
      example_review_def example_card_def due_rows_def embed_def toDueCard_def)

section \<open>The streak tracker\<close>

text \<open>
  When the host's time zone has no transition in the day before the clock reading (the day
  before in local time is the instant 24 hours earlier) and the two clock readings fall on
  the same date, \<^const>\<open>updateUserStreak\<close> does what a streak tracker is to do with the UTC
  date of the clock: nothing on the last study date, one more on the day after it, and 1
  otherwise; in UTC this is so for every clock reading in the range of a \<^verbatim>\<open>Date\<close>.
\<close>
lemma toISODate_day_before: "toISODate (t - msPerDay) = toISODate t - 1"
  by (simp add: toISODate_def msPerDay_def)

lemma updateUserStreak_steady:
  assumes "profiles userId = Some p"
    and "toISODate now' = toISODate now"
    and "setDate_plus tz now' (- 1) = Some (now' - msPerDay)"
  shows "streak_after (updateUserStreak tz now now' userId profiles) userId =
    Some (if last_study_date p = Some (toISODate now) then (last_study_date p, streak_count p)
          else (Some (toISODate now),
                if last_study_date p = Some (toISODate now - 1) then streak_count p + 1 else 1))"
  using assms
  by (simp add: streak_after_def row_after_def updateUserStreak_def Let_def
      toISODate_day_before)

lemma setDate_plus_utc:
  "\<bar>t - msPerDay\<bar> \<le> 8640000000000000 \<Longrightarrow> setDate_plus utc_zone t (- 1) = Some (t - msPerDay)"
  by (simp add: setDate_plus_def TimeClip_def UTC_def LocalTime_def utc_zone_def)

lemma updateUserStreak_utc:
  assumes "profiles userId = Some p" and "\<bar>now - msPerDay\<bar> \<le> 8640000000000000"
  shows "streak_after (updateUserStreak utc_zone now now userId profiles) userId =
    Some (if last_study_date p = Some (toISODate now) then (last_study_date p, streak_count p)
          else (Some (toISODate now),
                if last_study_date p = Some (toISODate now - 1) then streak_count p + 1 else 1))"
  using assms(1) refl setDate_plus_utc [OF assms(2)] by (rule updateUserStreak_steady)

text \<open>
  Claim C7 does not hold of \<^const>\<open>updateUserStreak\<close> on a host whose time zone changes its
  offset. In Europe/Berlin, at 2024-03-31T23:30:00Z (01:30 local time on April 1, after the
  clocks went forward), the date of today is 2024-03-31 (day 19813), and the local time one
  day earlier, 01:30 on March 31, is 2024-03-31T00:30:00Z, so the date of yesterday is
  2024-03-31 as well: a learner with a streak of 3 who last studied on 2024-03-30 (day 19812),
  one day before today, gets the streak 1, not 4. At 2024-10-28T00:30:00Z (01:30 local time,
  after the clocks went back) the date of today is 2024-10-28 (day 20024), and the local time
  one day earlier is 2024-10-26T23:30:00Z: a learner who last studied on 2024-10-26, two days
  before today, gets the streak 4, not 1, and one who last studied on 2024-10-27, the day
  before today, gets 1, not 4.
\<close>

theorem updateUserStreak_daylight_saving:
  "toISODate 1711927800000 = 19813
   \<and> map_option toISODate (setDate_plus berlin_2024 1711927800000 (- 1)) = Some 19813
   \<and> streak_after
        (updateUserStreak berlin_2024 1711927800000 1711927800000 ''learner''
           [''learner'' \<mapsto> example_profile (Some 19812) 3]) ''learner''
      = Some (Some 19813, 1)
   \<and> toISODate 1730075400000 = 20024
   \<and> map_option toISODate (setDate_plus berlin_2024 1730075400000 (- 1)) = Some 20022
   \<and> streak_after
        (updateUserStreak berlin_2024 1730075400000 1730075400000 ''learner''
           [''learner'' \<mapsto> example_profile (Some 20022) 3]) ''learner''
      = Some (Some 20024, 4)
   \<and> streak_after
        (updateUserStreak berlin_2024 1730075400000 1730075400000 ''learner''
           [''learner'' \<mapsto> example_profile (Some 20023) 3]) ''learner''
      = Some (Some 20024, 1)"
  by (simp add: updateUserStreak_eval berlin_2024_def example_profile_def)



end
